theory Spec2Isabelle
  imports Complex_Main
begin

section \<open>Numbers\<close>

text \<open>
  A JavaScript \<open>number\<close> is a double: a finite double is a rational, and the other
  values are the two infinities and \<open>NaN\<close> (the two zeros are one value here; the module
  does not tell them apart). An optional field (\<open>amount?: number\<close>) is an \<open>option\<close>,
  \<open>None\<close> being \<open>undefined\<close>.
\<close>

datatype number = Finite rat | PosInf | NegInf | NaN

text \<open>
  The finite doubles are the rationals \<open>m * 2 ^ e\<close> with \<open>\<bar>m\<bar> < 2 ^ 53\<close> and
  \<open>-1074 \<le> e \<le> 971\<close>. On a fraction \<open>p / q\<close> in lowest terms: \<open>q\<close> is a power of
  two up to \<open>2 ^ 1074\<close>, the odd part of \<open>p\<close> is below \<open>2 ^ 53\<close>, and the value is
  below \<open>2 ^ 1024\<close> in size.
\<close>

function oddPart :: "nat \<Rightarrow> nat" where
  "oddPart n = (if n \<noteq> 0 \<and> even n then oddPart (n div 2) else n)"
  by pat_completeness auto
termination
  by (relation "measure (\<lambda>n. n)") auto

function isPowerOfTwo :: "nat \<Rightarrow> bool" where
  "isPowerOfTwo n =
     (if n = 1 then True else if n \<noteq> 0 \<and> even n then isPowerOfTwo (n div 2) else False)"
  by pat_completeness auto
termination
  by (relation "measure (\<lambda>n. n)") auto

declare oddPart.simps [simp del] isPowerOfTwo.simps [simp del]

definition isDouble :: "rat \<Rightarrow> bool" where
  "isDouble x =
     (case quotient_of x of
        (p, q) \<Rightarrow>
          isPowerOfTwo (nat q) \<and> q \<le> 2 ^ 1074 \<and>
          oddPart (nat \<bar>p\<bar>) < 2 ^ 53 \<and> \<bar>p\<bar> < 2 ^ 1024 * q)"

text \<open>
  An operation on finite doubles gives the exact result when that is a double, and the
  exact result rounded otherwise. The rounding (to the nearest double, or to an infinity
  on overflow) belongs to the platform: it is the parameter \<open>rnd\<close> of every function
  that computes, and is consulted only on a result that is not a double.
\<close>

type_synonym rounding = "rat \<Rightarrow> number"

definition toDouble :: "rounding \<Rightarrow> rat \<Rightarrow> number" where
  "toDouble rnd x = (if isDouble x then Finite x else rnd x)"

text \<open>The operators \<open>+\<close>, \<open>-\<close> and \<open>*\<close> on numbers.\<close>

fun nadd :: "rounding \<Rightarrow> number \<Rightarrow> number \<Rightarrow> number" where
  "nadd rnd (Finite a) (Finite b) = toDouble rnd (a + b)"
| "nadd rnd NaN y = NaN"
| "nadd rnd x NaN = NaN"
| "nadd rnd PosInf NegInf = NaN"
| "nadd rnd NegInf PosInf = NaN"
| "nadd rnd PosInf y = PosInf"
| "nadd rnd NegInf y = NegInf"
| "nadd rnd (Finite a) PosInf = PosInf"
| "nadd rnd (Finite a) NegInf = NegInf"

fun nsub :: "rounding \<Rightarrow> number \<Rightarrow> number \<Rightarrow> number" where
  "nsub rnd (Finite a) (Finite b) = toDouble rnd (a - b)"
| "nsub rnd NaN y = NaN"
| "nsub rnd x NaN = NaN"
| "nsub rnd PosInf PosInf = NaN"
| "nsub rnd NegInf NegInf = NaN"
| "nsub rnd PosInf y = PosInf"
| "nsub rnd NegInf y = NegInf"
| "nsub rnd (Finite a) PosInf = NegInf"
| "nsub rnd (Finite a) NegInf = PosInf"

fun nmul :: "rounding \<Rightarrow> number \<Rightarrow> number \<Rightarrow> number" where
  "nmul rnd (Finite a) (Finite b) = toDouble rnd (a * b)"
| "nmul rnd NaN y = NaN"
| "nmul rnd x NaN = NaN"
| "nmul rnd (Finite a) PosInf = (if 0 < a then PosInf else if a < 0 then NegInf else NaN)"
| "nmul rnd (Finite a) NegInf = (if 0 < a then NegInf else if a < 0 then PosInf else NaN)"
| "nmul rnd PosInf (Finite b) = (if 0 < b then PosInf else if b < 0 then NegInf else NaN)"
| "nmul rnd NegInf (Finite b) = (if 0 < b then NegInf else if b < 0 then PosInf else NaN)"
| "nmul rnd PosInf PosInf = PosInf"
| "nmul rnd PosInf NegInf = NegInf"
| "nmul rnd NegInf PosInf = NegInf"
| "nmul rnd NegInf NegInf = PosInf"

text \<open>\<open>ToNumber\<close> of an optional number: \<open>undefined\<close> becomes \<open>NaN\<close>.\<close>

fun toNumber :: "number option \<Rightarrow> number" where
  "toNumber None = NaN"
| "toNumber (Some x) = x"

text \<open>The truthiness test \<open>if (x.amount)\<close>: false on \<open>undefined\<close>, \<open>0\<close> and \<open>NaN\<close>.\<close>

fun truthy :: "number option \<Rightarrow> bool" where
  "truthy None = False"
| "truthy (Some NaN) = False"
| "truthy (Some (Finite a)) = (a \<noteq> 0)"
| "truthy (Some PosInf) = True"
| "truthy (Some NegInf) = True"

section \<open>Data model\<close>

text \<open>
  The fields of an expense line that the module reads. \<open>Transaction\<close> is the record
  behind \<open>tx.value\<close>.
\<close>

record ExpenseLine =
  account :: string
  dealiasedAccount :: "string option"
  amount :: "number option"
  currency :: "string option"

record Transaction =
  date :: string
  payee :: string
  expenselines :: "ExpenseLine list"

text \<open>
  \<open>TypeError\<close> is the exception of reading a property of \<open>undefined\<close>;
  \<open>TxError\<close> is the value of \<open>err({transaction, message})\<close>.
\<close>

datatype error = TypeError | TxError Transaction string

section \<open>getTotalAsNum\<close>

text \<open>
  The \<open>for\<close> loop of \<open>getTotalAsNum\<close>, over the lines before the last; \<open>acc\<close> is the
  local \<open>sum\<close>.
\<close>

fun sumAmounts :: "rounding \<Rightarrow> ExpenseLine list \<Rightarrow> number \<Rightarrow> number" where
  "sumAmounts rnd [] acc = acc"
| "sumAmounts rnd (line # rest) acc =
     sumAmounts rnd rest
       (if truthy (amount line) then nadd rnd acc (toNumber (amount line)) else acc)"

definition getTotalAsNum :: "rounding \<Rightarrow> Transaction \<Rightarrow> error + number" where
  "getTotalAsNum rnd tx =
     (let lines = expenselines tx in
      if lines = [] then Inl TypeError
      else if truthy (amount (last lines))
        then Inr (nmul rnd (Finite (- 1)) (toNumber (amount (last lines))))
      else Inr (sumAmounts rnd (butlast lines) (Finite 0)))"

section \<open>fillMissingAmount\<close>

text \<open>
  The scanning loop, from index \<open>i\<close> on, with the locals \<open>commentLines\<close> and
  \<open>missingIndex\<close>; \<open>None\<close> is the early \<open>return err(...)\<close>.
\<close>

fun scanLines :: "ExpenseLine list \<Rightarrow> nat \<Rightarrow> nat list \<Rightarrow> int \<Rightarrow> (nat list \<times> int) option" where
  "scanLines [] i commentLines missingIndex = Some (commentLines, missingIndex)"
| "scanLines (line # rest) i commentLines missingIndex =
     (if amount line = None then
        (if account line = [] then scanLines rest (i + 1) (commentLines @ [i]) missingIndex
         else if missingIndex \<noteq> - 1 then None
         else scanLines rest (i + 1) commentLines (int i))
      else scanLines rest (i + 1) commentLines missingIndex)"

text \<open>The \<open>lines.reduce\<close> of the non-last branch, from index \<open>i\<close> on; \<open>n\<close> is \<open>lines.length\<close>.\<close>

fun reduceLines ::
  "rounding \<Rightarrow> ExpenseLine list \<Rightarrow> nat \<Rightarrow> nat \<Rightarrow> int \<Rightarrow> nat list \<Rightarrow> number \<Rightarrow> number" where
  "reduceLines rnd [] i n missingIndex commentLines prev = prev"
| "reduceLines rnd (line # rest) i n missingIndex commentLines prev =
     reduceLines rnd rest (i + 1) n missingIndex commentLines
       (if int i = missingIndex \<or> i + 1 = n \<or> i \<in> set commentLines then prev
        else nsub rnd prev (toNumber (amount line)))"

definition multipleMissing :: string where
  "multipleMissing =
     ''Transaction has multiple expense lines without an amount. At most one is allowed.''"

text \<open>
  \<open>lines[missingIndex].amount = v\<close>; writing to a line that does not exist is a
  \<open>TypeError\<close>.
\<close>

definition setAmount :: "Transaction \<Rightarrow> int \<Rightarrow> number \<Rightarrow> (error + unit) \<times> Transaction" where
  "setAmount tx missingIndex v =
     (let lines = expenselines tx in
      if 0 \<le> missingIndex \<and> nat missingIndex < length lines
      then (Inr (), tx\<lparr>expenselines :=
              lines[nat missingIndex := (lines ! nat missingIndex)\<lparr>amount := Some v\<rparr>]\<rparr>)
      else (Inl TypeError, tx))"

text \<open>
  \<open>fillMissingAmount\<close> returns its result together with the transaction as the call
  leaves it (the function writes to \<open>tx\<close> in place).
\<close>

definition fillMissingAmount :: "rounding \<Rightarrow> Transaction \<Rightarrow> (error + unit) \<times> Transaction" where
  "fillMissingAmount rnd tx =
     (let lines = expenselines tx in
      case scanLines lines 0 [] (- 1) of
        None \<Rightarrow> (Inl (TxError tx multipleMissing), tx)
      | Some (commentLines, missingIndex) \<Rightarrow>
          if missingIndex = - 1 then (Inr (), tx)
          else (case getTotalAsNum rnd tx of
                  Inl e \<Rightarrow> (Inl e, tx)
                | Inr tot \<Rightarrow>
                    if missingIndex + 1 = int (length lines)
                    then setAmount tx missingIndex (nmul rnd (Finite (- 1)) tot)
                    else setAmount tx missingIndex
                           (reduceLines rnd lines 0 (length lines) missingIndex
                              commentLines tot)))"

section \<open>valueForAccount\<close>

text \<open>
  The test \<open>(line.account && line.account === account) ||
  (line.dealiasedAccount && line.dealiasedAccount === account)\<close>: an empty or absent
  name is falsy and matches nothing.
\<close>

definition lineMatches :: "ExpenseLine \<Rightarrow> string \<Rightarrow> bool" where
  "lineMatches line acct =
     ((account line \<noteq> [] \<and> account line = acct) \<or>
      (case dealiasedAccount line of
         None \<Rightarrow> False
       | Some d \<Rightarrow> d \<noteq> [] \<and> d = acct))"

text \<open>
  The loop of \<open>valueForAccount\<close> from index \<open>i\<close> on. A non-last line gives its
  \<open>amount\<close> field as it is, which may be \<open>undefined\<close>.
\<close>

fun valueFrom ::
  "rounding \<Rightarrow> Transaction \<Rightarrow> string \<Rightarrow> nat \<Rightarrow> ExpenseLine list \<Rightarrow> error + number option" where
  "valueFrom rnd tx acct i [] = Inr (Some (Finite 0))"
| "valueFrom rnd tx acct i (line # rest) =
     (if lineMatches line acct then
        (if i + 1 = length (expenselines tx)
         then (case getTotalAsNum rnd tx of
                 Inl e \<Rightarrow> Inl e
               | Inr tot \<Rightarrow> Inr (Some (nmul rnd (Finite (- 1)) tot)))
         else Inr (amount line))
      else valueFrom rnd tx acct (i + 1) rest)"

definition valueForAccount :: "rounding \<Rightarrow> Transaction \<Rightarrow> string \<Rightarrow> error + number option" where
  "valueForAccount rnd tx acct = valueFrom rnd tx acct 0 (expenselines tx)"

section \<open>filterTransactions\<close>

type_synonym Filter = "Transaction \<Rightarrow> bool"

text \<open>lodash's \<open>some\<close> on an array.\<close>

fun some :: "'a list \<Rightarrow> ('a \<Rightarrow> bool) \<Rightarrow> bool" where
  "some [] p = False"
| "some (x # xs) p = (if p x then True else some xs p)"

definition filterTransactions :: "Transaction list \<Rightarrow> Filter list \<Rightarrow> Transaction list" where
  "filterTransactions txs filters =
     (if length filters > 0 then filter (\<lambda>tx. some filters (\<lambda>fn. fn tx)) txs else txs)"

text \<open>The filter constructor \<open>filterByPayeeExact\<close>.\<close>

definition filterByPayeeExact :: "string \<Rightarrow> Filter" where
  "filterByPayeeExact acct = (\<lambda>tx. payee tx = acct)"

section \<open>The account tree\<close>

text \<open>
  The interface \<open>Node\<close>; its fields \<open>id\<close> and \<open>account\<close> are \<open>nodeId\<close> and
  \<open>nodeAccount\<close> here, and an optional field is an \<open>option\<close>.
\<close>

datatype Node = Node (nodeId: string) (nodeAccount: string) (subRows: "Node list option")
  (expanded: "bool option")

fun setSubRows :: "Node \<Rightarrow> Node list option \<Rightarrow> Node" where
  "setSubRows (Node i a s e) s' = Node i a s' e"

text \<open>
  \<open>s.split(c)\<close> and \<open>parts.join(c)\<close> for a one-character separator. A split has
  at least one part; the empty case of \<open>splitOn\<close> below is never taken.
\<close>

fun splitOn :: "char \<Rightarrow> string \<Rightarrow> string list" where
  "splitOn c [] = [[]]"
| "splitOn c (x # xs) =
     (if x = c then [] # splitOn c xs
      else (case splitOn c xs of [] \<Rightarrow> [[x]] | p # ps \<Rightarrow> (x # p) # ps))"

fun joinWith :: "char \<Rightarrow> string list \<Rightarrow> string" where
  "joinWith c [] = []"
| "joinWith c [p] = p"
| "joinWith c (p # q # ps) = p @ c # joinWith c (q # ps)"

lemma splitOn_nonempty: "splitOn c s \<noteq> []"
  by (induction s) (auto split: list.splits)

lemma join_split: "joinWith c (splitOn c s) = s"
proof (induction s)
  case Nil
  then show ?case by simp
next
  case (Cons x xs)
  obtain p ps where ps: "splitOn c xs = p # ps"
    using splitOn_nonempty [of c xs] by (cases "splitOn c xs") auto
  with Cons show ?case by (cases ps) auto
qed

lemma join_tail_shorter:
  assumes "splitOn c s = p # q # ps"
  shows "length (joinWith c (q # ps)) < length s"
proof -
  have "s = joinWith c (p # q # ps)" using join_split [of c s] assms by simp
  then show ?thesis by simp
qed

text \<open>
  \<open>destNode\<close> is an element of \<open>nodes\<close> (the one \<open>find\<close> returned, or the one just
  pushed), and the write to \<open>destNode.subRows\<close> changes it inside the array:
  \<open>replaceFirst\<close> puts the changed node in the place of the first node with that
  account.
\<close>

fun replaceFirst :: "('a \<Rightarrow> bool) \<Rightarrow> 'a \<Rightarrow> 'a list \<Rightarrow> 'a list" where
  "replaceFirst P y [] = []"
| "replaceFirst P y (x # xs) = (if P x then y # xs else x # replaceFirst P y xs)"

text \<open>
  \<open>makeAccountTree\<close> returns the array \<open>nodes\<close> as the call leaves it. A \<open>parent\<close>
  that is \<open>undefined\<close> or empty is falsy.
\<close>

function makeAccountTree :: "Node list \<Rightarrow> string \<Rightarrow> string option \<Rightarrow> Node list" where
  "makeAccountTree nodes newValue parent =
     (case splitOn CHR '':'' newValue of
        [] \<Rightarrow> nodes
      | part0 # restParts \<Rightarrow>
          (let fullName =
                 (case parent of
                    None \<Rightarrow> part0
                  | Some p \<Rightarrow> if p = [] then part0 else p @ '':'' @ part0);
               found = find (\<lambda>val. nodeAccount val = part0) nodes;
               destNode = (case found of None \<Rightarrow> Node fullName part0 None None | Some d \<Rightarrow> d);
               nodes1 = (case found of None \<Rightarrow> nodes @ [destNode] | Some d \<Rightarrow> nodes)
           in if length (part0 # restParts) > 1 then
                (let subs = (case subRows destNode of None \<Rightarrow> [] | Some s \<Rightarrow> s);
                     newParent =
                       (case parent of
                          None \<Rightarrow> part0
                        | Some p \<Rightarrow> if p = [] then part0 else p @ '':'' @ part0)
                 in replaceFirst (\<lambda>val. nodeAccount val = part0)
                      (setSubRows destNode
                         (Some (makeAccountTree subs (joinWith CHR '':'' restParts)
                                  (Some newParent))))
                      nodes1)
              else nodes1))"
  by pat_completeness auto
termination
proof (relation "measure (\<lambda>(nodes, newValue, parent). length newValue)")
  show "wf (measure (\<lambda>(nodes, newValue, parent). length newValue))" by simp
next
  fix nodes :: "Node list" and newValue :: string and parent :: "string option"
    and part0 restParts fullName found destNode nodes1 subs newParent
  assume "splitOn CHR '':'' newValue = part0 # restParts" and "1 < length (part0 # restParts)"
  then obtain q ps where "splitOn CHR '':'' newValue = part0 # q # ps" and r: "restParts = q # ps"
    by (cases restParts) auto
  then have "length (joinWith CHR '':'' (q # ps)) < length newValue"
    using join_tail_shorter by blast
  then show "((subs, joinWith CHR '':'' restParts, Some newParent), (nodes, newValue, parent))
      \<in> measure (\<lambda>(nodes, newValue, parent). length newValue)"
    using r by simp
qed

text \<open>
  \<open>nodes.sort(compare)\<close> is a stable sort, here by insertion; the comparison
  \<open>a.account.localeCompare(b.account, 'en', {numeric: true})\<close> belongs to the
  platform and is the parameter \<open>localeCompare\<close>, negative when \<open>a\<close> sorts first.
\<close>

fun insertNode :: "(string \<Rightarrow> string \<Rightarrow> int) \<Rightarrow> Node \<Rightarrow> Node list \<Rightarrow> Node list" where
  "insertNode localeCompare a [] = [a]"
| "insertNode localeCompare a (b # bs) =
     (if localeCompare (nodeAccount a) (nodeAccount b) \<le> 0 then a # b # bs
      else b # insertNode localeCompare a bs)"

definition sortNodes :: "(string \<Rightarrow> string \<Rightarrow> int) \<Rightarrow> Node list \<Rightarrow> Node list" where
  "sortNodes localeCompare nodes = foldr (insertNode localeCompare) nodes []"

lemma set_insertNode: "set (insertNode localeCompare a bs) = insert a (set bs)"
  by (induction bs) auto

lemma set_sortNodes: "set (sortNodes localeCompare nodes) = set nodes"
  by (induction nodes) (auto simp: sortNodes_def set_insertNode)

lemma size_subRows: "subRows n = Some s \<Longrightarrow> size_list size s < size n"
  by (cases n) simp

lemma size_member: "n \<in> set ns \<Longrightarrow> size n < Suc (size_list size ns)"
  by (induction ns) auto

function sortAccountTree :: "(string \<Rightarrow> string \<Rightarrow> int) \<Rightarrow> Node list \<Rightarrow> Node list" where
  "sortAccountTree localeCompare nodes =
     map (\<lambda>node. case subRows node of
                   None \<Rightarrow> node
                 | Some s \<Rightarrow> setSubRows node (Some (sortAccountTree localeCompare s)))
       (sortNodes localeCompare nodes)"
  by pat_completeness auto
termination
proof (relation "measure (\<lambda>(localeCompare, nodes). size_list size nodes)")
  show "wf (measure (\<lambda>(localeCompare, nodes). size_list size nodes))" by simp
next
  fix localeCompare :: "string \<Rightarrow> string \<Rightarrow> int" and nodes :: "Node list" and node s
  assume "node \<in> set (sortNodes localeCompare nodes)" and "subRows node = Some s"
  then have "size_list size s < size node" and "size node < Suc (size_list size nodes)"
    by (simp_all add: size_subRows set_sortNodes size_member)
  then show "((localeCompare, s), (localeCompare, nodes))
      \<in> measure (\<lambda>(localeCompare, nodes). size_list size nodes)"
    by simp
qed

text \<open>A tree built by inserting the paths in order into an empty array.\<close>

definition buildTree :: "string list \<Rightarrow> Node list" where
  "buildTree paths = fold (\<lambda>p nodes. makeAccountTree nodes p None) paths []"

section \<open>dealiasAccount\<close>

text \<open>\<open>String.prototype.indexOf\<close> for one character: the first index, or \<open>-1\<close>.\<close>

fun indexOfFrom :: "char \<Rightarrow> string \<Rightarrow> nat \<Rightarrow> int" where
  "indexOfFrom c [] i = - 1"
| "indexOfFrom c (x # xs) i = (if x = c then int i else indexOfFrom c xs (i + 1))"

definition indexOf :: "string \<Rightarrow> char \<Rightarrow> int" where
  "indexOf s c = indexOfFrom c s 0"

text \<open>
  The alias table \<open>Map<string, string>\<close> is a map; \<open>substring(0, k)\<close> is \<open>take k\<close>
  and \<open>substring(k)\<close> is \<open>drop k\<close>.
\<close>

definition dealiasAccount :: "string \<Rightarrow> (string \<rightharpoonup> string) \<Rightarrow> string" where
  "dealiasAccount acct aliases =
     (let firstDelimeter = indexOf acct CHR '':'' in
      if firstDelimeter > 0 then
        (let prefix = take (nat firstDelimeter) acct in
         case aliases prefix of
           Some v \<Rightarrow> v @ drop (nat firstDelimeter) acct
         | None \<Rightarrow> acct)
      else (case aliases acct of Some v \<Rightarrow> v | None \<Rightarrow> acct))"

section \<open>Vocabulary of the properties\<close>

text \<open>
  A line is missing when it has an account and no amount; a comment line has neither.
\<close>

definition isMissing :: "ExpenseLine \<Rightarrow> bool" where
  "isMissing line = (amount line = None \<and> account line \<noteq> [])"

definition isComment :: "ExpenseLine \<Rightarrow> bool" where
  "isComment line = (amount line = None \<and> account line = [])"

text \<open>The amount of a line as a rational, an absent amount counting as 0.\<close>

definition amountOrZero :: "ExpenseLine \<Rightarrow> rat" where
  "amountOrZero line = (case amount line of Some (Finite a) \<Rightarrow> a | _ \<Rightarrow> 0)"

text \<open>An amount that is a finite number, and a line whose amount is absent or finite.\<close>

fun finiteAmount :: "number option \<Rightarrow> bool" where
  "finiteAmount (Some (Finite a)) = True"
| "finiteAmount v = False"

definition numericOrAbsent :: "ExpenseLine \<Rightarrow> bool" where
  "numericOrAbsent line = (amount line = None \<or> finiteAmount (amount line))"

text \<open>
  Lines whose amounts are exactly summable: every amount is absent or finite, and for
  every \<open>k\<close> the sum of the first \<open>k\<close> amounts is a double. The additions the code makes
  over such lines, in line order, do not round.
\<close>

definition exactSums :: "ExpenseLine list \<Rightarrow> bool" where
  "exactSums ls =
     (list_all numericOrAbsent ls \<and>
      list_all (\<lambda>k. isDouble (sum_list (map amountOrZero (take k ls)))) [0..<Suc (length ls)])"

text \<open>Concrete transactions.\<close>

definition mkLine :: "string \<Rightarrow> number option \<Rightarrow> ExpenseLine" where
  "mkLine a v = \<lparr>account = a, dealiasedAccount = None, amount = v, currency = None\<rparr>"

definition mkTx :: "ExpenseLine list \<Rightarrow> Transaction" where
  "mkTx ls = \<lparr>date = ''2021-01-01'', payee = ''Shop'', expenselines = ls\<rparr>"

definition txExpCash :: Transaction where
  "txExpCash = mkTx [mkLine ''Exp'' (Some (Finite 30)), mkLine ''Cash'' None]"

definition txTwoMissing :: Transaction where
  "txTwoMissing = mkTx [mkLine ''Exp'' None, mkLine [] None, mkLine ''Cash'' None]"

definition txZeroLast :: Transaction where
  "txZeroLast = mkTx [mkLine ''A'' (Some (Finite 5)), mkLine ''B'' (Some (Finite 0))]"

definition txMissingFirstZeroLast :: Transaction where
  "txMissingFirstZeroLast =
     mkTx [mkLine ''A'' None, mkLine ''B'' (Some (Finite 5)), mkLine ''C'' (Some (Finite 0))]"

text \<open>
  The accounts a transaction touches: the non-empty \<open>account\<close> fields of its lines,
  each name once, in order.
\<close>

definition touchedAccounts :: "Transaction \<Rightarrow> string list" where
  "touchedAccounts tx = remdups (filter (\<lambda>a. a \<noteq> []) (map account (expenselines tx)))"

text \<open>
  The sum \<open>valueForAccount(tx, a1) + valueForAccount(tx, a2) + ...\<close> with the
  addition of JavaScript numbers, from the left.
\<close>

fun sumValuesFrom :: "rounding \<Rightarrow> Transaction \<Rightarrow> number \<Rightarrow> string list \<Rightarrow> error + number" where
  "sumValuesFrom rnd tx acc [] = Inr acc"
| "sumValuesFrom rnd tx acc (a # as) =
     (case valueForAccount rnd tx a of
        Inl e \<Rightarrow> Inl e
      | Inr v \<Rightarrow> sumValuesFrom rnd tx (nadd rnd acc (toNumber v)) as)"

definition sumValues :: "rounding \<Rightarrow> Transaction \<Rightarrow> string list \<Rightarrow> error + number" where
  "sumValues rnd tx accts = sumValuesFrom rnd tx (Finite 0) accts"

text \<open>
  A resolved transaction: every line is a comment line, or has an account and an amount
  that is a finite number. A balanced one: its amounts sum to 0.
\<close>

definition resolved :: "Transaction \<Rightarrow> bool" where
  "resolved tx =
     list_all (\<lambda>l. isComment l \<or> (account l \<noteq> [] \<and> finiteAmount (amount l)))
       (expenselines tx)"

definition balanced :: "Transaction \<Rightarrow> bool" where
  "balanced tx = (sum_list (map amountOrZero (expenselines tx)) = 0)"

text \<open>No two lines name the same account.\<close>

definition distinctAccounts :: "Transaction \<Rightarrow> bool" where
  "distinctAccounts tx = distinct (filter (\<lambda>a. a \<noteq> []) (map account (expenselines tx)))"

text \<open>The dealiased name of a line is not the account of a line with another account.\<close>

definition aliasesApart :: "Transaction \<Rightarrow> bool" where
  "aliasesApart tx =
     list_all (\<lambda>l. list_all (\<lambda>l'. account l' \<noteq> [] \<and> dealiasedAccount l = Some (account l')
                                  \<longrightarrow> account l = account l')
                 (expenselines tx)) (expenselines tx)"

definition txDup :: Transaction where
  "txDup = mkTx [mkLine ''A'' (Some (Finite 5)), mkLine ''A'' (Some (Finite 3)),
                 mkLine ''B'' (Some (Finite (- 8)))]"

definition txFood :: Transaction where
  "txFood = mkTx
     [\<lparr>account = ''Exp:Food'', dealiasedAccount = Some ''Expenses:Food'',
        amount = Some (Finite 30), currency = Some ''$''\<rparr>,
      mkLine [] None,
      mkLine ''Cash'' (Some (Finite (- 30)))]"

text \<open>Transactions told apart by their payee.\<close>

definition txOf :: "string \<Rightarrow> Transaction" where
  "txOf p = \<lparr>date = ''2021-01-01'', payee = p, expenselines = []\<rparr>"

text \<open>
  \<open>dealiasAccount\<close> as the specification words it: split at the first colon and look
  the prefix up; with no colon, look the whole name up; otherwise leave the name.
\<close>

definition dealiasAccount_spec :: "string \<Rightarrow> (string \<rightharpoonup> string) \<Rightarrow> string" where
  "dealiasAccount_spec acct aliases =
     (if CHR '':'' \<in> set acct then
        (case aliases (takeWhile (\<lambda>x. x \<noteq> CHR '':'') acct) of
           Some v \<Rightarrow> v @ dropWhile (\<lambda>x. x \<noteq> CHR '':'') acct
         | None \<Rightarrow> acct)
      else (case aliases acct of Some v \<Rightarrow> v | None \<Rightarrow> acct))"

text \<open>No two siblings with the same account, at any level of a tree.\<close>

function noDuplicateSiblings :: "Node list \<Rightarrow> bool" where
  "noDuplicateSiblings nodes =
     (distinct (map nodeAccount nodes) \<and>
      list_all (\<lambda>n. case subRows n of None \<Rightarrow> True | Some s \<Rightarrow> noDuplicateSiblings s) nodes)"
  by pat_completeness auto
termination
proof (relation "measure (size_list size)")
  show "wf (measure (size_list size))" by simp
next
  fix nodes :: "Node list" and n s
  assume "n \<in> set nodes" and "subRows n = Some s"
  then have "size_list size s < size n" and "size n < Suc (size_list size nodes)"
    by (simp_all add: size_subRows size_member)
  then show "(s, nodes) \<in> measure (size_list size)" by simp
qed

text \<open>
  A comparison by character codes, one of the comparisons that order the names of the
  example as the English collation does.
\<close>

fun codeUnitCompare :: "string \<Rightarrow> string \<Rightarrow> int" where
  "codeUnitCompare [] [] = 0"
| "codeUnitCompare [] (y # ys) = - 1"
| "codeUnitCompare (x # xs) [] = 1"
| "codeUnitCompare (x # xs) (y # ys) =
     (if (of_char x :: nat) < of_char y then - 1
      else if (of_char y :: nat) < of_char x then 1
      else codeUnitCompare xs ys)"

definition examplePaths :: "string list" where
  "examplePaths = [''Expenses:Food:Groceries'', ''Expenses:Food:Restaurants'', ''Assets:Cash'']"

definition exampleSorted :: "Node list" where
  "exampleSorted =
     [Node ''Assets'' ''Assets'' (Some [Node ''Assets:Cash'' ''Cash'' None None]) None,
      Node ''Expenses'' ''Expenses''
        (Some [Node ''Expenses:Food'' ''Food''
           (Some [Node ''Expenses:Food:Groceries'' ''Groceries'' None None,
                  Node ''Expenses:Food:Restaurants'' ''Restaurants'' None None])
           None])
        None]"

section \<open>Properties of the numbers\<close>

lemma isDouble_minus: "isDouble (- x) = isDouble x"
  by (cases "quotient_of x") (simp add: isDouble_def rat_uminus_code)

lemma isDouble_examples:
  "isDouble 0" "isDouble 3" "isDouble 5" "isDouble 8" "isDouble 30"
  "isDouble (- 3)" "isDouble (- 5)" "isDouble (- 8)" "isDouble (- 30)"
  by (simp_all add: isDouble_def oddPart.simps isPowerOfTwo.simps)

lemma toDouble_exact: "isDouble x \<Longrightarrow> toDouble rnd x = Finite x"
  by (simp add: toDouble_def)

lemma negate_exact: "isDouble x \<Longrightarrow> nmul rnd (Finite (- 1)) (Finite x) = Finite (- x)"
  by (simp add: toDouble_def isDouble_minus)

section \<open>Properties of the scanning loop and of the sum\<close>

lemma scan_None_iff:
  "scanLines ls i cl mi = None \<longleftrightarrow>
     2 \<le> length (filter isMissing ls) + (if mi = - 1 then 0 else 1)"
  by (induction ls arbitrary: i cl mi) (auto simp: isMissing_def)

lemma scan_Some_range:
  "scanLines ls i cl mi = Some (cl', mi') \<Longrightarrow> - 1 \<le> mi \<Longrightarrow> mi < int i \<Longrightarrow>
     - 1 \<le> mi' \<and> mi' < int (i + length ls)"
proof (induction ls arbitrary: i cl mi)
  case Nil
  then show ?case by simp
next
  case (Cons l ls)
  then show ?case by (fastforce split: if_splits)
qed

lemma scan_append:
  "scanLines (xs @ ys) i cl mi =
     (case scanLines xs i cl mi of
        None \<Rightarrow> None
      | Some (cl', mi') \<Rightarrow> scanLines ys (i + length xs) cl' mi')"
  by (induction xs arbitrary: i cl mi) (auto split: option.split)

lemma scan_no_missing:
  "\<forall>l\<in>set xs. \<not> isMissing l \<Longrightarrow> \<exists>cl'. scanLines xs i cl mi = Some (cl', mi)"
  by (induction xs arbitrary: i cl) (auto simp: isMissing_def)

lemma setAmount_ok:
  "0 \<le> m \<Longrightarrow> m < int (length (expenselines tx)) \<Longrightarrow> fst (setAmount tx m v) = Inr ()"
  by (simp add: setAmount_def Let_def)

lemma getTotalAsNum_error: "getTotalAsNum rnd tx = Inl e \<Longrightarrow> e = TypeError"
  by (auto simp: getTotalAsNum_def Let_def split: if_splits)

lemma amountOrZero_None: "amount l = None \<Longrightarrow> amountOrZero l = 0"
  by (simp add: amountOrZero_def)

lemma amountOrZero_Finite: "amount l = Some (Finite a) \<Longrightarrow> amountOrZero l = a"
  by (simp add: amountOrZero_def)

lemma numericOrAbsent_cases:
  assumes "numericOrAbsent l"
  obtains "amount l = None" | a where "amount l = Some (Finite a)"
proof (cases "amount l")
  case None
  then show ?thesis using that by simp
next
  case (Some v)
  with assms have "finiteAmount (Some v)" by (simp add: numericOrAbsent_def)
  then obtain a where "v = Finite a" by (cases v) simp_all
  with Some show ?thesis using that by simp
qed

lemma exactSums_numeric: "exactSums ls \<Longrightarrow> l \<in> set ls \<Longrightarrow> numericOrAbsent l"
  by (simp add: exactSums_def list_all_iff)

lemma exactSums_prefix:
  "exactSums ls \<Longrightarrow> k \<le> length ls \<Longrightarrow> isDouble (sum_list (map amountOrZero (take k ls)))"
  by (cases "k = length ls") (auto simp: exactSums_def list_all_iff)

lemma exactSums_append: "exactSums (xs @ ys) \<Longrightarrow> isDouble (sum_list (map amountOrZero xs))"
  using exactSums_prefix [of "xs @ ys" "length xs"] by simp

lemma exactSums_front:
  assumes "exactSums (xs @ ys)"
  shows "exactSums xs"
proof -
  have "isDouble (sum_list (map amountOrZero (take k xs)))" if "k \<le> length xs" for k
    using exactSums_prefix [OF assms, of k] that by simp
  moreover have "list_all numericOrAbsent xs"
    using assms by (simp add: exactSums_def)
  ultimately show ?thesis by (auto simp: exactSums_def list_all_iff simp del: upt_Suc)
qed

text \<open>Where no partial sum rounds, the loop of \<open>getTotalAsNum\<close> computes the sum.\<close>

lemma sumAmounts_exact_from:
  assumes "\<forall>l\<in>set ls. numericOrAbsent l"
    and "\<forall>k\<le>length ls. isDouble (s + sum_list (map amountOrZero (take k ls)))"
  shows "sumAmounts rnd ls (Finite s) = Finite (s + sum_list (map amountOrZero ls))"
  using assms
proof (induction ls arbitrary: s)
  case Nil
  then show ?case by simp
next
  case (Cons l ls)
  from Cons.prems(1) have num: "numericOrAbsent l" and nums: "\<forall>l\<in>set ls. numericOrAbsent l"
    by simp_all
  have step: "isDouble (s + amountOrZero l)"
    using Cons.prems(2) [rule_format, of 1] by simp
  have later: "\<forall>k\<le>length ls.
      isDouble ((s + amountOrZero l) + sum_list (map amountOrZero (take k ls)))"
  proof (intro allI impI)
    fix k assume "k \<le> length ls"
    then show "isDouble ((s + amountOrZero l) + sum_list (map amountOrZero (take k ls)))"
      using Cons.prems(2) [rule_format, of "Suc k"] by (simp add: add.assoc)
  qed
  have ih: "sumAmounts rnd ls (Finite (s + amountOrZero l)) =
      Finite ((s + amountOrZero l) + sum_list (map amountOrZero ls))"
    using Cons.IH [OF nums later] .
  from num show ?case
  proof (cases rule: numericOrAbsent_cases)
    case 1
    with ih show ?thesis by (simp add: amountOrZero_None)
  next
    case (2 a)
    with ih step show ?thesis
      by (cases "a = 0") (simp_all add: amountOrZero_Finite toDouble_exact add.assoc)
  qed
qed

lemma sumAmounts_exact:
  assumes "exactSums ls"
  shows "sumAmounts rnd ls (Finite 0) = Finite (sum_list (map amountOrZero ls))"
proof -
  have "\<forall>l\<in>set ls. numericOrAbsent l"
    using assms exactSums_numeric by blast
  moreover have "\<forall>k\<le>length ls. isDouble (0 + sum_list (map amountOrZero (take k ls)))"
    using assms exactSums_prefix by simp
  ultimately show ?thesis
    using sumAmounts_exact_from [of ls 0 rnd] by simp
qed

section \<open>What getTotalAsNum computes\<close>

lemma getTotalAsNum_nonzero_last:
  "expenselines tx = others @ [lastLine] \<Longrightarrow> amount lastLine = Some (Finite a) \<Longrightarrow>
     a \<noteq> 0 \<Longrightarrow> isDouble a \<Longrightarrow> getTotalAsNum rnd tx = Inr (Finite (- a))"
  by (simp add: getTotalAsNum_def toDouble_exact isDouble_minus)


text \<open>
  With the last line the only missing one, the amount written is \<open>-1\<close> times the sum
  that the loop of \<open>getTotalAsNum\<close> takes over the other lines, rounded or not.
\<close>

lemma fill_last_missing_rounded:
  assumes lines: "expenselines tx = others @ [lastLine]"
    and miss: "isMissing lastLine"
    and others: "\<forall>l\<in>set others. \<not> isMissing l"
  shows "fillMissingAmount rnd tx =
           (Inr (), tx\<lparr>expenselines := others @
              [lastLine\<lparr>amount :=
                 Some (nmul rnd (Finite (- 1)) (sumAmounts rnd others (Finite 0)))\<rparr>]\<rparr>)"
proof -
  from others obtain cl where pre: "scanLines others 0 [] (- 1) = Some (cl, - 1)"
    using scan_no_missing [of others 0 "[]" "- 1"] by blast
  from miss have scan:
    "scanLines (others @ [lastLine]) 0 [] (- 1) = Some (cl, int (length others))"
    by (simp add: scan_append pre isMissing_def)
  from miss have tot: "getTotalAsNum rnd tx = Inr (sumAmounts rnd others (Finite 0))"
    by (simp add: getTotalAsNum_def lines isMissing_def)
  show ?thesis
    by (simp add: fillMissingAmount_def scan tot setAmount_def lines Let_def)
qed

section \<open>The claims about fillMissingAmount and getTotalAsNum\<close>

text \<open>
  C1. The claim: when exactly one non-comment line lacks its amount, after
  \<open>fillMissingAmount\<close> the negation of the last line's amount equals the sum of the
  amounts of the other lines. The code does not do this when the last line's amount is
  0: for the lines A (no amount), B 5, C 0 the call succeeds and writes 0 to A, after
  which the negated last amount is 0 and the sum of the other lines is 5. The total that
  \<open>fillMissingAmount\<close> starts from is the one \<open>getTotalAsNum\<close> gets wrong (C3). No
  operation rounds at this input, whatever the rounding is.
\<close>

theorem fill_then_totals_disagree_at_zero_last:
  "length (filter isMissing (expenselines txMissingFirstZeroLast)) = 1 \<and>
   fst (fillMissingAmount rnd txMissingFirstZeroLast) = Inr () \<and>
   map amount (expenselines (snd (fillMissingAmount rnd txMissingFirstZeroLast))) =
     [Some (Finite 0), Some (Finite 5), Some (Finite 0)] \<and>
   nmul rnd (Finite (- 1))
     (toNumber (amount (last (expenselines (snd (fillMissingAmount rnd txMissingFirstZeroLast)))))) =
     Finite 0 \<and>
   sumAmounts rnd (butlast (expenselines (snd (fillMissingAmount rnd txMissingFirstZeroLast))))
     (Finite 0) = Finite 5"
  by (simp add: fillMissingAmount_def getTotalAsNum_def setAmount_def isMissing_def
      txMissingFirstZeroLast_def mkTx_def mkLine_def toDouble_def isDouble_examples)

text \<open>
  C2. \<open>fillMissingAmount\<close> returns the error exactly when more than one line with an
  account lacks its amount, and succeeds otherwise; comment lines are not counted.
\<close>

theorem fillMissingAmount_error_iff_multiple_missing:
  "fst (fillMissingAmount rnd tx) =
     (if 1 < length (filter isMissing (expenselines tx))
      then Inl (TxError tx multipleMissing) else Inr ())"
proof (cases "scanLines (expenselines tx) 0 [] (- 1)")
  case None
  then have "2 \<le> length (filter isMissing (expenselines tx))"
    using scan_None_iff [of "expenselines tx" 0 "[]" "- 1"] by simp
  with None show ?thesis by (simp add: fillMissingAmount_def)
next
  case (Some r)
  obtain cl mi where r: "r = (cl, mi)" by (cases r)
  from Some have few: "\<not> 1 < length (filter isMissing (expenselines tx))"
    using scan_None_iff [of "expenselines tx" 0 "[]" "- 1"] by auto
  from Some r have rng: "- 1 \<le> mi \<and> mi < int (length (expenselines tx))"
    using scan_Some_range [of "expenselines tx" 0 "[]" "- 1" cl mi] by simp
  show ?thesis
  proof (cases "mi = - 1")
    case True
    with Some r few show ?thesis by (simp add: fillMissingAmount_def)
  next
    case False
    with rng have ne: "expenselines tx \<noteq> []" and m0: "0 \<le> mi" by auto
    from ne have "\<exists>t. getTotalAsNum rnd tx = Inr t"
      by (simp add: getTotalAsNum_def Let_def)
    then obtain t where t: "getTotalAsNum rnd tx = Inr t" ..
    from Some r False t few m0 rng show ?thesis
      by (simp add: fillMissingAmount_def setAmount_ok Let_def)
  qed
qed

theorem fillMissingAmount_error_iff_multiple_missing_witness:
  "\<forall>rnd. length (filter isMissing (expenselines txTwoMissing)) = 2 \<and>
     fst (fillMissingAmount rnd txTwoMissing) = Inl (TxError txTwoMissing multipleMissing) \<and>
     length (filter isMissing (expenselines txExpCash)) = 1 \<and>
     fst (fillMissingAmount rnd txExpCash) = Inr ()"
proof
  fix rnd
  show "length (filter isMissing (expenselines txTwoMissing)) = 2 \<and>
     fst (fillMissingAmount rnd txTwoMissing) = Inl (TxError txTwoMissing multipleMissing) \<and>
     length (filter isMissing (expenselines txExpCash)) = 1 \<and>
     fst (fillMissingAmount rnd txExpCash) = Inr ()"
    using fillMissingAmount_error_iff_multiple_missing [of rnd txTwoMissing]
      fillMissingAmount_error_iff_multiple_missing [of rnd txExpCash]
    by (simp add: txTwoMissing_def txExpCash_def mkTx_def mkLine_def isMissing_def)
qed

text \<open>
  C3. The claim: when the last line has a present amount \<open>a\<close>, \<open>getTotalAsNum\<close>
  returns \<open>-a\<close>. The code tests the amount for truthiness, so a present amount of 0 is
  taken as absent: for the lines A 5, B 0 it returns 5, the sum of the other lines. For
  an amount other than 0 it returns \<open>-a\<close> (\<open>getTotalAsNum_nonzero_last\<close>), and for
  an absent one the sum of the other lines (\<open>getTotalAsNum_absent_last\<close>).
\<close>

theorem getTotalAsNum_zero_last_gives_sum:
  "amount (last (expenselines txZeroLast)) = Some (Finite 0) \<and>
   getTotalAsNum rnd txZeroLast = Inr (Finite 5)"
  by (simp add: getTotalAsNum_def txZeroLast_def mkTx_def mkLine_def toDouble_def
      isDouble_examples)



text \<open>
  C9. When \<open>fillMissingAmount\<close> returns the error, the transaction is as it was, and
  the error carries that transaction.
\<close>

theorem fill_error_leaves_transaction_unchanged:
  "fst (fillMissingAmount rnd tx) = Inl (TxError tx' msg) \<Longrightarrow>
     snd (fillMissingAmount rnd tx) = tx \<and> tx' = tx"
  by (auto simp: fillMissingAmount_def setAmount_def Let_def
      dest: getTotalAsNum_error
      split: option.splits if_splits sum.splits prod.splits)

theorem fill_error_leaves_transaction_unchanged_witness:
  "\<forall>rnd. fst (fillMissingAmount rnd txTwoMissing) = Inl (TxError txTwoMissing multipleMissing) \<and>
     snd (fillMissingAmount rnd txTwoMissing) = txTwoMissing"
proof
  fix rnd
  have h: "fst (fillMissingAmount rnd txTwoMissing) = Inl (TxError txTwoMissing multipleMissing)"
    by (simp add: fillMissingAmount_def txTwoMissing_def mkTx_def mkLine_def Let_def)
  from fill_error_leaves_transaction_unchanged [OF h] h
  show "fst (fillMissingAmount rnd txTwoMissing) = Inl (TxError txTwoMissing multipleMissing) \<and>
     snd (fillMissingAmount rnd txTwoMissing) = txTwoMissing"
    by simp
qed

section \<open>The claim about valueForAccount\<close>

lemma valueFrom_first_match:
  "\<forall>l\<in>set pre. \<not> lineMatches l acct \<Longrightarrow> lineMatches l0 acct \<Longrightarrow>
     valueFrom rnd tx acct i (pre @ l0 # post) =
       (if i + length pre + 1 = length (expenselines tx)
        then (case getTotalAsNum rnd tx of
                Inl e \<Rightarrow> Inl e
              | Inr tot \<Rightarrow> Inr (Some (nmul rnd (Finite (- 1)) tot)))
        else Inr (amount l0))"
  by (induction pre arbitrary: i) auto

lemma resolved_line:
  assumes "resolved tx" and "l \<in> set (expenselines tx)" and "account l \<noteq> []"
  shows "amount l = Some (Finite (amountOrZero l))"
proof -
  from assms have "finiteAmount (amount l)"
    by (auto simp: resolved_def list_all_iff isComment_def)
  then obtain a where "amount l = Some (Finite a)"
    by (cases "amount l" rule: finiteAmount.cases) simp_all
  then show ?thesis by (simp add: amountOrZero_Finite)
qed

text \<open>On a balanced transaction the total is the negated amount of the last line.\<close>

lemma total_of_balanced:
  assumes res: "resolved tx" and bal: "balanced tx" and ex: "exactSums (expenselines tx)"
    and lines: "expenselines tx = pre @ [l0]" and acc: "account l0 \<noteq> []"
  shows "getTotalAsNum rnd tx = Inr (Finite (- amountOrZero l0))"
    and "isDouble (amountOrZero l0)"
proof -
  from res lines acc have am: "amount l0 = Some (Finite (amountOrZero l0))"
    using resolved_line [of tx l0] by simp
  from bal lines have sum: "sum_list (map amountOrZero pre) = - amountOrZero l0"
    by (simp add: balanced_def)
  from ex lines have "isDouble (sum_list (map amountOrZero pre))"
    using exactSums_append [of pre "[l0]"] by simp
  with sum show dbl: "isDouble (amountOrZero l0)" by (simp add: isDouble_minus)
  show "getTotalAsNum rnd tx = Inr (Finite (- amountOrZero l0))"
  proof (cases "amountOrZero l0 = 0")
    case False
    from getTotalAsNum_nonzero_last [OF lines am False dbl] show ?thesis .
  next
    case True
    from ex lines have "exactSums pre" using exactSums_front [of pre "[l0]"] by simp
    then have "sumAmounts rnd pre (Finite 0) = Finite (sum_list (map amountOrZero pre))"
      by (rule sumAmounts_exact)
    with sum am True show ?thesis by (simp add: getTotalAsNum_def lines)
  qed
qed

lemma no_earlier_match:
  assumes dis: "distinctAccounts tx" and al: "aliasesApart tx"
    and lines: "expenselines tx = pre @ l0 # post" and acc: "account l0 \<noteq> []"
  shows "\<forall>l\<in>set pre. \<not> lineMatches l (account l0)"
proof
  fix l assume l: "l \<in> set pre"
  from dis lines acc have notin: "account l0 \<notin> account ` set pre"
    by (auto simp: distinctAccounts_def)
  show "\<not> lineMatches l (account l0)"
  proof
    assume "lineMatches l (account l0)"
    then consider "account l = account l0" | "dealiasedAccount l = Some (account l0)"
      by (auto simp: lineMatches_def split: option.splits)
    then have "account l = account l0"
    proof cases
      case 1 then show ?thesis .
    next
      case 2
      with al lines l acc show ?thesis by (auto simp: aliasesApart_def list_all_iff)
    qed
    moreover from l have "account l \<in> account ` set pre" by (rule imageI)
    ultimately show False using notin by simp
  qed
qed

lemma value_of_line:
  assumes res: "resolved tx" and bal: "balanced tx" and ex: "exactSums (expenselines tx)"
    and dis: "distinctAccounts tx" and al: "aliasesApart tx"
    and lines: "expenselines tx = pre @ l0 # post" and acc: "account l0 \<noteq> []"
  shows "valueForAccount rnd tx (account l0) = Inr (Some (Finite (amountOrZero l0)))"
proof -
  have nm: "\<forall>l\<in>set pre. \<not> lineMatches l (account l0)"
    using no_earlier_match [OF dis al lines acc] .
  have m: "lineMatches l0 (account l0)" using acc by (simp add: lineMatches_def)
  from res lines acc have am: "amount l0 = Some (Finite (amountOrZero l0))"
    using resolved_line [of tx l0] by simp
  show ?thesis
  proof (cases "post = []")
    case True
    with lines have last: "expenselines tx = pre @ [l0]" by simp
    have tot: "getTotalAsNum rnd tx = Inr (Finite (- amountOrZero l0))"
      and dbl: "isDouble (amountOrZero l0)"
      using total_of_balanced [OF res bal ex last acc] by simp_all
    from dbl have "nmul rnd (Finite (- 1)) (Finite (- amountOrZero l0)) =
        Finite (amountOrZero l0)"
      using negate_exact [of "- amountOrZero l0" rnd] by (simp add: isDouble_minus)
    with tot True show ?thesis
      using valueFrom_first_match [OF nm m, of rnd tx 0 post]
      by (simp add: valueForAccount_def lines del: nmul.simps)
  next
    case False
    then show ?thesis
      using valueFrom_first_match [OF nm m, of rnd tx 0 post] am
      by (simp add: valueForAccount_def lines)
  qed
qed

lemma sumValues_suffix:
  assumes res: "resolved tx" and bal: "balanced tx" and ex: "exactSums (expenselines tx)"
    and dis: "distinctAccounts tx" and al: "aliasesApart tx"
  shows "expenselines tx = pre @ suf \<Longrightarrow>
     sumValuesFrom rnd tx (Finite (sum_list (map amountOrZero pre)))
       (filter (\<lambda>a. a \<noteq> []) (map account suf)) =
     Inr (Finite (sum_list (map amountOrZero pre) + sum_list (map amountOrZero suf)))"
proof (induction suf arbitrary: pre)
  case Nil
  then show ?case by simp
next
  case (Cons l0 suf)
  from Cons.prems have split: "expenselines tx = (pre @ [l0]) @ suf" by simp
  then have ih: "sumValuesFrom rnd tx (Finite (sum_list (map amountOrZero (pre @ [l0]))))
       (filter (\<lambda>a. a \<noteq> []) (map account suf)) =
     Inr (Finite (sum_list (map amountOrZero (pre @ [l0])) + sum_list (map amountOrZero suf)))"
    by (rule Cons.IH)
  show ?case
  proof (cases "account l0 = []")
    case True
    with res Cons.prems have "amount l0 = None"
      by (auto simp: resolved_def list_all_iff isComment_def)
    with True ih show ?thesis by (simp add: amountOrZero_None)
  next
    case False
    have "isDouble (sum_list (map amountOrZero (pre @ [l0])))"
      using ex split exactSums_append [of "pre @ [l0]" suf] by simp
    then have "nadd rnd (Finite (sum_list (map amountOrZero pre))) (Finite (amountOrZero l0)) =
        Finite (sum_list (map amountOrZero (pre @ [l0])))"
      by (simp add: toDouble_exact)
    with value_of_line [OF res bal ex dis al Cons.prems False] False ih
    show ?thesis by (simp add: add.assoc del: nadd.simps)
  qed
qed

text \<open>
  C4, as claimed: on a resolved and balanced transaction the values of the touched
  accounts sum to 0. It fails where two lines name the same account, since
  \<open>valueForAccount\<close> returns at the first matching line: for the lines A 5, A 3, B -8
  the accounts are A and B and the values 5 and -8. No operation rounds at this input,
  whatever the rounding is.
\<close>

theorem values_sum_counterexample:
  "\<forall>rnd. resolved txDup \<and> balanced txDup \<and> touchedAccounts txDup = [''A'', ''B''] \<and>
     map (valueForAccount rnd txDup) (touchedAccounts txDup) =
       [Inr (Some (Finite 5)), Inr (Some (Finite (- 8)))] \<and>
     sumValues rnd txDup (touchedAccounts txDup) = Inr (Finite (- 3)) \<and>
     sumValues rnd txDup (touchedAccounts txDup) \<noteq> Inr (Finite 0)"
  by (simp add: resolved_def balanced_def touchedAccounts_def txDup_def mkTx_def mkLine_def
      isComment_def amountOrZero_def valueForAccount_def lineMatches_def getTotalAsNum_def
      sumValues_def toDouble_def isDouble_examples)

text \<open>
  C4, amended: on a resolved and balanced transaction whose lines name distinct accounts,
  none of them the dealiased name of a line with another account, and whose amounts are
  exactly summable, the values of the touched accounts sum to 0.
\<close>

theorem values_sum_to_zero:
  assumes res: "resolved tx" and bal: "balanced tx"
    and dis: "distinctAccounts tx" and al: "aliasesApart tx"
    and ex: "exactSums (expenselines tx)"
  shows "sumValues rnd tx (touchedAccounts tx) = Inr (Finite 0)"
proof -
  have "touchedAccounts tx = filter (\<lambda>a. a \<noteq> []) (map account (expenselines tx))"
    using dis by (simp add: touchedAccounts_def distinctAccounts_def)
  moreover have "sumValuesFrom rnd tx (Finite 0)
        (filter (\<lambda>a. a \<noteq> []) (map account (expenselines tx))) =
       Inr (Finite (sum_list (map amountOrZero (expenselines tx))))"
    using sumValues_suffix [OF res bal ex dis al, of "[]" "expenselines tx" rnd] by simp
  ultimately show ?thesis using bal by (simp add: balanced_def sumValues_def)
qed

theorem values_sum_to_zero_witness:
  "\<forall>rnd. resolved txFood \<and> balanced txFood \<and> distinctAccounts txFood \<and> aliasesApart txFood \<and>
     exactSums (expenselines txFood) \<and>
     touchedAccounts txFood = [''Exp:Food'', ''Cash''] \<and>
     sumValues rnd txFood (touchedAccounts txFood) = Inr (Finite 0)"
proof
  fix rnd
  have res: "resolved txFood"
    by (simp add: resolved_def txFood_def mkTx_def mkLine_def isComment_def)
  have bal: "balanced txFood"
    by (simp add: balanced_def txFood_def mkTx_def mkLine_def amountOrZero_def)
  have dis: "distinctAccounts txFood"
    by (simp add: distinctAccounts_def txFood_def mkTx_def mkLine_def)
  have al: "aliasesApart txFood"
    by (simp add: aliasesApart_def txFood_def mkTx_def mkLine_def)
  have ex: "exactSums (expenselines txFood)"
    by (simp add: exactSums_def numericOrAbsent_def txFood_def mkTx_def mkLine_def
        amountOrZero_def isDouble_examples
        upt_rec [of 0] upt_rec [of 1] upt_rec [of 2] upt_rec [of 3] upt_rec [of 4])
  have "touchedAccounts txFood = [''Exp:Food'', ''Cash'']"
    by (simp add: touchedAccounts_def txFood_def mkTx_def mkLine_def)
  with values_sum_to_zero [OF res bal dis al ex, of rnd] res bal dis al ex
  show "resolved txFood \<and> balanced txFood \<and> distinctAccounts txFood \<and> aliasesApart txFood \<and>
     exactSums (expenselines txFood) \<and>
     touchedAccounts txFood = [''Exp:Food'', ''Cash''] \<and>
     sumValues rnd txFood (touchedAccounts txFood) = Inr (Finite 0)"
    by simp
qed

section \<open>The claim about filterTransactions\<close>

lemma some_iff: "some fs p \<longleftrightarrow> (\<exists>f\<in>set fs. p f)"
  by (induction fs) auto

text \<open>
  C6. With no filter \<open>filterTransactions\<close> returns the list as it is; with filters it
  returns, in their order, the transactions that some filter matches.
\<close>

theorem filterTransactions_union:
  "filterTransactions txs [] = txs \<and>
   (filters \<noteq> [] \<longrightarrow>
      filterTransactions txs filters = filter (\<lambda>tx. \<exists>fn\<in>set filters. fn tx) txs)"
  by (simp add: filterTransactions_def some_iff)

theorem filterTransactions_union_witness:
  "filterTransactions [txOf ''a'', txOf ''b'', txOf ''c'', txOf ''a'']
     [filterByPayeeExact ''c'', filterByPayeeExact ''a''] =
   [txOf ''a'', txOf ''c'', txOf ''a'']"
  using filterTransactions_union [of "[txOf ''a'', txOf ''b'', txOf ''c'', txOf ''a'']"
      "[filterByPayeeExact ''c'', filterByPayeeExact ''a'']"]
  by (simp add: filterByPayeeExact_def txOf_def)

section \<open>The claims about dealiasAccount\<close>

lemma indexOfFrom_none: "c \<notin> set s \<Longrightarrow> indexOfFrom c s i = - 1"
  by (induction s arbitrary: i) auto

lemma indexOfFrom_first:
  "c \<in> set s \<Longrightarrow> indexOfFrom c s i = int (i + length (takeWhile (\<lambda>x. x \<noteq> c) s))"
  by (induction s arbitrary: i) auto

lemma take_length_takeWhile: "take (length (takeWhile P xs)) xs = takeWhile P xs"
  by (induction xs) auto

lemma drop_length_takeWhile: "drop (length (takeWhile P xs)) xs = dropWhile P xs"
  by (induction xs) auto

text \<open>
  C7, as claimed: \<open>dealiasAccount\<close> does what the specification words. It fails on a
  name that begins with the colon and is itself an alias key: the words leave it
  unchanged, the code replaces it.
\<close>

theorem dealias_spec_counterexample:
  "dealiasAccount '':foo'' ['':foo'' \<mapsto> ''Y''] = ''Y'' \<and>
   dealiasAccount_spec '':foo'' ['':foo'' \<mapsto> ''Y''] = '':foo'' \<and>
   dealiasAccount '':foo'' ['':foo'' \<mapsto> ''Y''] \<noteq>
     dealiasAccount_spec '':foo'' ['':foo'' \<mapsto> ''Y'']"
  by (simp add: dealiasAccount_def indexOf_def dealiasAccount_spec_def)

text \<open>
  C7, amended: when the name has a colon that is not its first character,
  \<open>dealiasAccount\<close> looks up the prefix before the first colon and, if it is an alias
  key, returns the alias value followed by the rest from that colon on; when the name has
  no colon or begins with the colon, it looks up the whole name and, if it is an alias
  key, returns the alias value; otherwise it returns the name. The three examples hold.
\<close>

theorem dealias_by_cases:
  "dealiasAccount acct aliases =
     (if CHR '':'' \<in> set acct \<and> hd acct \<noteq> CHR '':'' then
        (case aliases (takeWhile (\<lambda>x. x \<noteq> CHR '':'') acct) of
           Some v \<Rightarrow> v @ dropWhile (\<lambda>x. x \<noteq> CHR '':'') acct
         | None \<Rightarrow> acct)
      else (case aliases acct of Some v \<Rightarrow> v | None \<Rightarrow> acct)) \<and>
   dealiasAccount ''Exp:Food'' [''Exp'' \<mapsto> ''Expenses''] = ''Expenses:Food'' \<and>
   dealiasAccount ''Cash'' [''Cash'' \<mapsto> ''Assets:Cash''] = ''Assets:Cash'' \<and>
   dealiasAccount ''Exp:Food'' Map.empty = ''Exp:Food''"
proof -
  have general: "dealiasAccount acct aliases =
     (if CHR '':'' \<in> set acct \<and> hd acct \<noteq> CHR '':'' then
        (case aliases (takeWhile (\<lambda>x. x \<noteq> CHR '':'') acct) of
           Some v \<Rightarrow> v @ dropWhile (\<lambda>x. x \<noteq> CHR '':'') acct
         | None \<Rightarrow> acct)
      else (case aliases acct of Some v \<Rightarrow> v | None \<Rightarrow> acct))"
  proof (cases "CHR '':'' \<in> set acct")
    case False
    then show ?thesis by (simp add: dealiasAccount_def indexOf_def indexOfFrom_none)
  next
    case True
    then have idx: "indexOf acct CHR '':'' = int (length (takeWhile (\<lambda>x. x \<noteq> CHR '':'') acct))"
      by (simp add: indexOf_def indexOfFrom_first)
    from True obtain a rest where acct: "acct = a # rest" by (cases acct) auto
    show ?thesis
    proof (cases "a = CHR '':''")
      case True
      then show ?thesis
        by (simp add: dealiasAccount_def indexOf_def acct split: option.split)
    next
      case False
      let ?k = "length (takeWhile (\<lambda>x. x \<noteq> CHR '':'') acct)"
      from False acct have hd: "hd acct \<noteq> CHR '':''" and pos: "0 < ?k" by simp_all
      have "dealiasAccount acct aliases =
              (case aliases (take ?k acct) of Some v \<Rightarrow> v @ drop ?k acct | None \<Rightarrow> acct)"
        using pos by (simp add: dealiasAccount_def idx Let_def split: option.split)
      also have "\<dots> = (case aliases (takeWhile (\<lambda>x. x \<noteq> CHR '':'') acct) of
                         Some v \<Rightarrow> v @ dropWhile (\<lambda>x. x \<noteq> CHR '':'') acct | None \<Rightarrow> acct)"
        by (simp only: take_length_takeWhile drop_length_takeWhile)
      finally show ?thesis using True hd by simp
    qed
  qed
  have "dealiasAccount ''Exp:Food'' [''Exp'' \<mapsto> ''Expenses''] = ''Expenses:Food''"
    and "dealiasAccount ''Cash'' [''Cash'' \<mapsto> ''Assets:Cash''] = ''Assets:Cash''"
    and "dealiasAccount ''Exp:Food'' Map.empty = ''Exp:Food''"
    by (simp_all add: dealiasAccount_def indexOf_def)
  with general show ?thesis by simp
qed

theorem dealias_by_cases_witness:
  "dealiasAccount ''Exp:Food:Fruit'' [''Exp'' \<mapsto> ''Expenses'', ''Food'' \<mapsto> ''F''] =
     ''Expenses:Food:Fruit''"
  using dealias_by_cases [of "''Exp:Food:Fruit''" "[''Exp'' \<mapsto> ''Expenses'', ''Food'' \<mapsto> ''F'']"]
  by simp

text \<open>
  C10. On a name that begins with the colon \<open>dealiasAccount\<close> replaces no prefix: it
  returns the alias value of the whole name when the name is an alias key, and the name
  otherwise.
\<close>

theorem dealias_leading_colon:
  "acct \<noteq> [] \<Longrightarrow> hd acct = CHR '':'' \<Longrightarrow>
     dealiasAccount acct aliases = (case aliases acct of Some v \<Rightarrow> v | None \<Rightarrow> acct)"
  by (cases acct) (auto simp: dealiasAccount_def indexOf_def)

theorem dealias_leading_colon_witness:
  "dealiasAccount '':Food'' [[] \<mapsto> ''Expenses''] = '':Food'' \<and>
   dealiasAccount '':Food'' [[] \<mapsto> ''Expenses'', '':Food'' \<mapsto> ''Meals''] = ''Meals''"
  using dealias_leading_colon [of "'':Food''" "[[] \<mapsto> ''Expenses'']"]
    dealias_leading_colon [of "'':Food''" "[[] \<mapsto> ''Expenses'', '':Food'' \<mapsto> ''Meals'']"]
  by simp

section \<open>The claim about the account tree\<close>

lemma buildTree_example:
  "buildTree examplePaths =
     [Node ''Expenses'' ''Expenses''
        (Some [Node ''Expenses:Food'' ''Food''
           (Some [Node ''Expenses:Food:Groceries'' ''Groceries'' None None,
                  Node ''Expenses:Food:Restaurants'' ''Restaurants'' None None])
           None])
        None,
      Node ''Assets'' ''Assets'' (Some [Node ''Assets:Cash'' ''Cash'' None None]) None]"
  by code_simp

text \<open>
  C8. Where the comparison puts Assets before Expenses and Groceries before Restaurants,
  building the tree of the three paths and sorting it gives the top level Assets,
  Expenses, with Food the one child of Expenses and Groceries, Restaurants the children
  of Food, in that order, and no two siblings with the same account.
\<close>

theorem build_then_sort_example:
  assumes "localeCompare ''Assets'' ''Expenses'' < 0"
    and "localeCompare ''Expenses'' ''Assets'' > 0"
    and "localeCompare ''Groceries'' ''Restaurants'' < 0"
    and "localeCompare ''Restaurants'' ''Groceries'' > 0"
  shows "sortAccountTree localeCompare (buildTree examplePaths) = exampleSorted \<and>
         map nodeAccount (sortAccountTree localeCompare (buildTree examplePaths)) =
           [''Assets'', ''Expenses''] \<and>
         noDuplicateSiblings (sortAccountTree localeCompare (buildTree examplePaths))"
proof -
  have "sortAccountTree localeCompare (buildTree examplePaths) = exampleSorted"
    unfolding buildTree_example using assms by (simp add: sortNodes_def exampleSorted_def)
  moreover have "noDuplicateSiblings exampleSorted"
    by (simp add: exampleSorted_def)
  moreover have "map nodeAccount exampleSorted = [''Assets'', ''Expenses'']"
    by (simp add: exampleSorted_def)
  ultimately show ?thesis by simp
qed

theorem build_then_sort_example_witness:
  "sortAccountTree codeUnitCompare (buildTree examplePaths) = exampleSorted"
  using build_then_sort_example [of codeUnitCompare] by simp

end
